theory Spec2Isabelle
  imports
    Complex_Main
    "HOL-Library.AList"
    "HOL-Library.Multiset"
    "HOL-Library.Char_ord"
    "HOL-Library.List_Lexorder"
    "HOL-Library.Sublist"
begin

section \<open>Profile partitions and the SQL functions\<close>

text \<open>
  The migration script defines two PL/pgSQL functions over the per-schema tables
  \<^verbatim>\<open>public.profiles\<close>, \<^verbatim>\<open>quimicinter.profiles\<close> and \<^verbatim>\<open>qalinkforce.profiles\<close>.
  A database is an association list from schema names to the rows of that schema's
  \<^verbatim>\<open>profiles\<close> table; a schema that is not listed has no such table, and a statement
  that touches it raises \<^verbatim>\<open>undefined_table\<close>.
\<close>

type_synonym uuid = string

text \<open>
  Modelled from the spec: the DDL of the \<^verbatim>\<open>profiles\<close> tables is not part of the
  migration. The columns are the ones the INSERT statements name; every column is
  taken to be NOT NULL, \<^verbatim>\<open>role\<close> and \<^verbatim>\<open>schema_name\<close> are text, the timestamps are
  points of an abstract clock, and \<^verbatim>\<open>id\<close> is the only unique key (the conflict target
  of the upserts).
\<close>

record profile =
  id_p :: uuid
  email :: string
  full_name :: string
  role :: string
  status_p :: string
  schema_name :: string
  created_at :: nat
  updated_at :: nat

type_synonym profiles_table = "profile list"

type_synonym database = "(string \<times> profiles_table) list"

datatype sql_error = UndefinedTable string | InvalidJson

text \<open>
  The row \<^verbatim>\<open>NEW\<close> of \<^verbatim>\<open>auth.users\<close>: its id, its email and the JSON metadata bag.
  \<^verbatim>\<open>raw_user_meta_data->>'k'\<close> is the text of field \<^verbatim>\<open>k\<close>, or NULL (here \<open>None\<close>) when
  the field is absent, JSON null, or the whole bag is NULL.
\<close>

record auth_user =
  user_id :: uuid
  user_email :: string
  raw_user_meta_data :: "string \<rightharpoonup> string"

text \<open>
  \<^verbatim>\<open>current_setting('request.headers', true)::json\<close>: the setting is absent (NULL), or
  holds text that is not JSON (the cast raises), or holds a JSON value whose fields
  are read with \<^verbatim>\<open>->>\<close>.
\<close>

datatype request_headers = Unset | NotJson | Json "string \<rightharpoonup> string"

definition table_of :: "database \<Rightarrow> string \<Rightarrow> sql_error + profiles_table" where
  "table_of db s =
     (case map_of db s of None \<Rightarrow> Inl (UndefinedTable s) | Some rows \<Rightarrow> Inr rows)"

definition and_then :: "sql_error + 'a \<Rightarrow> ('a \<Rightarrow> sql_error + 'b) \<Rightarrow> sql_error + 'b" where
  "and_then r f = (case r of Inl e \<Rightarrow> Inl e | Inr x \<Rightarrow> f x)"

text \<open>
  \<^verbatim>\<open>INSERT ... ON CONFLICT (id) DO UPDATE SET ...\<close> on one table: a row with the same
  id is rewritten by the SET list (given as \<open>on_conflict existing excluded\<close>), and
  otherwise the proposed row is appended.
\<close>

definition upsert :: "(profile \<Rightarrow> profile \<Rightarrow> profile) \<Rightarrow> profile \<Rightarrow> profiles_table \<Rightarrow> profiles_table" where
  "upsert on_conflict excluded rows =
     (if id_p excluded \<in> set (map id_p rows)
      then map (\<lambda>r. if id_p r = id_p excluded then on_conflict r excluded else r) rows
      else rows @ [excluded])"

definition insert_into :: "(profile \<Rightarrow> profile \<Rightarrow> profile) \<Rightarrow> string \<Rightarrow> profile \<Rightarrow> database \<Rightarrow> sql_error + database" where
  "insert_into on_conflict s excluded db =
     and_then (table_of db s)
       (\<lambda>rows. Inr (AList.update s (upsert on_conflict excluded rows) db))"

text \<open>The SET list of the first upsert (lines 59 to 63): the role is \<^verbatim>\<open>EXCLUDED.role\<close>.\<close>

definition set_excluded :: "nat \<Rightarrow> profile \<Rightarrow> profile \<Rightarrow> profile" where
  "set_excluded now r excluded =
     r\<lparr>email := email excluded, full_name := full_name excluded,
       role := role excluded, updated_at := now\<rparr>"

text \<open>The SET list of the two replication upserts (lines 94 to 98 and 121 to 125):
  the role is the literal \<^verbatim>\<open>'admin'\<close>.\<close>

definition set_admin :: "nat \<Rightarrow> profile \<Rightarrow> profile \<Rightarrow> profile" where
  "set_admin now r excluded =
     r\<lparr>email := email excluded, full_name := full_name excluded,
       role := ''admin'', updated_at := now\<rparr>"

text \<open>Lines 19 to 23: \<^verbatim>\<open>v_schema := COALESCE(metadata, header, 'public')\<close>. COALESCE
  evaluates its arguments only until one is not NULL.\<close>

definition v_schema :: "request_headers \<Rightarrow> auth_user \<Rightarrow> sql_error + string" where
  "v_schema hdrs new =
     (case raw_user_meta_data new ''schema_name'' of
        Some s \<Rightarrow> Inr s
      | None \<Rightarrow>
         (case hdrs of
            Unset \<Rightarrow> Inr ''public''
          | NotJson \<Rightarrow> Inl InvalidJson
          | Json h \<Rightarrow>
             (case h ''x-schema-name'' of Some s \<Rightarrow> Inr s | None \<Rightarrow> Inr ''public'')))"

text \<open>Lines 26 to 36: \<^verbatim>\<open>v_role\<close>. The unqualified \<^verbatim>\<open>profiles\<close> is \<^verbatim>\<open>public.profiles\<close>
  (the function sets \<^verbatim>\<open>search_path = public\<close>); the expression is analysed as one
  query, so a missing table raises whatever the metadata says.\<close>

definition v_role :: "database \<Rightarrow> auth_user \<Rightarrow> string \<Rightarrow> sql_error + string" where
  "v_role db new schema =
     and_then (table_of db ''public'')
       (\<lambda>profiles.
          case raw_user_meta_data new ''role'' of
            Some r \<Rightarrow> Inr r
          | None \<Rightarrow>
              Inr (if filter (\<lambda>p. schema_name p = schema) profiles = []
                   then ''admin'' else ''user''))"

definition new_full_name :: "auth_user \<Rightarrow> string" where
  "new_full_name new =
     (case raw_user_meta_data new ''full_name'' of Some n \<Rightarrow> n | None \<Rightarrow> [])"

definition new_profile :: "nat \<Rightarrow> auth_user \<Rightarrow> string \<Rightarrow> string \<Rightarrow> profile" where
  "new_profile now new r s =
     \<lparr>id_p = user_id new, email = user_email new, full_name = new_full_name new,
      role = r, status_p = ''active'', schema_name = s,
      created_at = now, updated_at = now\<rparr>"

text \<open>Lines 73 to 127: the replication into the two named schemas, each skipped when
  it is the resolved schema.\<close>

definition replicate_admin :: "nat \<Rightarrow> auth_user \<Rightarrow> string \<Rightarrow> database \<Rightarrow> sql_error + database" where
  "replicate_admin now new schema db1 =
     and_then
       (if schema \<noteq> ''quimicinter''
        then insert_into (set_admin now) ''quimicinter''
               (new_profile now new ''admin'' ''quimicinter'') db1
        else Inr db1)
       (\<lambda>db2.
          if schema \<noteq> ''qalinkforce''
          then insert_into (set_admin now) ''qalinkforce''
                 (new_profile now new ''admin'' ''qalinkforce'') db2
          else Inr db2)"

text \<open>The trigger function. It returns \<^verbatim>\<open>NEW\<close> unchanged; the model returns the
  database it leaves, or the error that aborts the transaction.\<close>

definition handle_new_auth_user :: "nat \<Rightarrow> request_headers \<Rightarrow> auth_user \<Rightarrow> database \<Rightarrow> sql_error + database" where
  "handle_new_auth_user now hdrs new db =
     and_then (v_schema hdrs new) (\<lambda>schema.
     and_then (v_role db new schema) (\<lambda>r.
     and_then (insert_into (set_excluded now) schema (new_profile now new r schema) db) (\<lambda>db1.
       if r = ''admin'' then replicate_admin now new schema db1 else Inr db1)))"

text \<open>Lines 154 to 169: the three selects joined by UNION ALL, in the order written.\<close>

definition user_info :: "profiles_table \<Rightarrow> profiles_table \<Rightarrow> profiles_table \<Rightarrow> uuid \<Rightarrow> profile list" where
  "user_info pub qui qal uid =
     filter (\<lambda>p. id_p p = uid) pub @ filter (\<lambda>p. id_p p = uid) qui
       @ filter (\<lambda>p. id_p p = uid) qal"

text \<open>\<^verbatim>\<open>validate_login_access(user_id, p_schema)\<close>, for arguments that are not NULL.
  \<^verbatim>\<open>LIMIT 1\<close> without ORDER BY takes the first row the append of the three scans
  produces; with no row \<^verbatim>\<open>v_role\<close> stays NULL and the answer is false.\<close>

definition validate_login_access :: "database \<Rightarrow> uuid \<Rightarrow> string \<Rightarrow> sql_error + bool" where
  "validate_login_access db uid p_schema =
     and_then (table_of db ''public'') (\<lambda>pub.
     and_then (table_of db ''quimicinter'') (\<lambda>qui.
     and_then (table_of db ''qalinkforce'') (\<lambda>qal.
       case user_info pub qui qal uid of
         [] \<Rightarrow> Inr False
       | p # _ \<Rightarrow> if role p = ''admin'' then Inr True else Inr (schema_name p = p_schema))))"

section \<open>The invoice list view-model\<close>

text \<open>
  Modelled from the spec: the \<^verbatim>\<open>Invoice\<close> type (\<^verbatim>\<open>types/billing\<close>) is not in the
  repository slice. Status is enumerated draft, issued, voided; payment status is
  enumerated pending, partial, paid. Only the fields the list logic reads are kept
  (line items, subtotal and tax feed the PDF export and the product ranking only).
  Amounts are JavaScript numbers, idealised as reals.
\<close>

datatype invoice_status = Draft | Issued | Voided

datatype payment_state = Pending | Partial | Paid

record customer =
  customer_full_name :: string

record invoice =
  id_i :: string
  ncf :: string
  customer :: "customer option"
  issue_date :: string
  total_amount :: real
  status :: invoice_status
  payment_status :: payment_state

fun STATUS_ORDER :: "invoice_status \<Rightarrow> nat" where
  "STATUS_ORDER Draft = 0"
| "STATUS_ORDER Issued = 1"
| "STATUS_ORDER Voided = 2"

fun PAYMENT_STATUS_ORDER :: "payment_state \<Rightarrow> nat" where
  "PAYMENT_STATUS_ORDER Pending = 0"
| "PAYMENT_STATUS_ORDER Partial = 1"
| "PAYMENT_STATUS_ORDER Paid = 2"

datatype direction = Asc | Desc

text \<open>
  The sort key is one of the six column names that \<^verbatim>\<open>handleSort\<close> is called with
  (the initial key is \<^verbatim>\<open>'status'\<close>), so the comparator's \<^verbatim>\<open>default\<close> branch is never
  taken.
\<close>

datatype sort_key = KNcf | KCustomer | KIssueDate | KTotalAmount | KStatus | KPaymentStatus

record sort_config =
  key :: sort_key
  direction :: direction

record date_range =
  startDate :: string
  endDate :: string

record stat =
  stat_count :: nat
  stat_total :: real

record stats =
  issuedInvoices :: stat
  paidInvoices :: stat
  pendingInvoices :: stat
  voidedInvoices :: stat
  draftInvoices :: stat

record ui_state =
  invoices :: "invoice list"
  loading :: bool
  search :: string
  currentPage :: int
  activeFilter :: string
  dateRange :: date_range
  stats :: stats
  sortConfig :: sort_config

text \<open>
  What the browser supplies: \<^verbatim>\<open>new Date(s).getTime()\<close> (\<open>None\<close> for an invalid date,
  whose time value is NaN), the time value of the first day of the current month,
  and \<^verbatim>\<open>String.prototype.toLowerCase\<close>.
\<close>

record env =
  parseDate :: "string \<Rightarrow> int option"
  firstDayOfMonth :: int
  toLowerCase :: "string \<Rightarrow> string"

text \<open>The outcome of \<^verbatim>\<open>await billingAPI.getInvoices()\<close>: the promise rejects, or it
  resolves to \<^verbatim>\<open>{ data, error }\<close>.\<close>

datatype response = Rejected | Resolved "invoice list option" "string option"

text \<open>The values the comparator compares with \<^verbatim>\<open><\<close> and \<^verbatim>\<open>>\<close>: both come from the
  same column, so both are strings or both are numbers; every comparison with NaN
  is false.\<close>

datatype js_value = Num real | NaN | Str string

fun js_lt :: "js_value \<Rightarrow> js_value \<Rightarrow> bool" where
  "js_lt (Num a) (Num b) = (a < b)"
| "js_lt (Str a) (Str b) = (a < b)"
| "js_lt _ _ = False"

definition time_value :: "env \<Rightarrow> string \<Rightarrow> js_value" where
  "time_value e s = (case parseDate e s of None \<Rightarrow> NaN | Some t \<Rightarrow> Num (of_int t))"

fun sort_value :: "env \<Rightarrow> sort_key \<Rightarrow> invoice \<Rightarrow> js_value" where
  "sort_value e KStatus a = Num (of_nat (STATUS_ORDER (status a)))"
| "sort_value e KPaymentStatus a = Num (of_nat (PAYMENT_STATUS_ORDER (payment_status a)))"
| "sort_value e KCustomer a =
     Str (case customer a of None \<Rightarrow> [] | Some c \<Rightarrow> customer_full_name c)"
| "sort_value e KNcf a = Str (ncf a)"
| "sort_value e KIssueDate a = time_value e (issue_date a)"
| "sort_value e KTotalAmount a = Num (total_amount a)"

text \<open>The comparator of lines 194 to 230.\<close>

definition compare_invoices :: "env \<Rightarrow> sort_config \<Rightarrow> invoice \<Rightarrow> invoice \<Rightarrow> int" where
  "compare_invoices e cfg a b =
     (let aValue = sort_value e (key cfg) a; bValue = sort_value e (key cfg) b
      in if js_lt aValue bValue then (if direction cfg = Asc then - 1 else 1)
         else if js_lt bValue aValue then (if direction cfg = Asc then 1 else - 1)
         else 0)"

text \<open>
  \<^verbatim>\<open>Array.prototype.sort(cmp)\<close>. ECMAScript (2019 and later) requires the sort to be
  stable; for a comparator that is a consistent ordering every stable sort returns
  the same array, computed here by insertion from the right.
\<close>

fun insort_cmp :: "('a \<Rightarrow> 'a \<Rightarrow> int) \<Rightarrow> 'a \<Rightarrow> 'a list \<Rightarrow> 'a list" where
  "insort_cmp cmp x [] = [x]"
| "insort_cmp cmp x (y # ys) =
     (if cmp x y \<le> 0 then x # y # ys else y # insort_cmp cmp x ys)"

definition array_sort :: "('a \<Rightarrow> 'a \<Rightarrow> int) \<Rightarrow> 'a list \<Rightarrow> 'a list" where
  "array_sort cmp xs = foldr (insort_cmp cmp) xs []"

text \<open>Lines 141 to 146: the date range applies when both ends are non-empty; the
  dates are compared as strings.\<close>

definition applyDateRange :: "date_range \<Rightarrow> invoice list \<Rightarrow> invoice list" where
  "applyDateRange dr filteredData =
     (if startDate dr \<noteq> [] \<and> endDate dr \<noteq> []
      then filter (\<lambda>iv. issue_date iv \<ge> startDate dr \<and> issue_date iv \<le> endDate dr)
             filteredData
      else filteredData)"

definition in_current_month :: "env \<Rightarrow> invoice \<Rightarrow> bool" where
  "in_current_month e iv =
     (case parseDate e (issue_date iv) of None \<Rightarrow> False | Some t \<Rightarrow> t \<ge> firstDayOfMonth e)"

text \<open>Lines 149 to 190: the default view and the \<^verbatim>\<open>switch\<close> on the active filter
  (which has no default case).\<close>

definition applyActiveFilter :: "env \<Rightarrow> string \<Rightarrow> invoice list \<Rightarrow> invoice list" where
  "applyActiveFilter e f filteredData =
     (if f = [] then
        filter (\<lambda>iv. status iv = Issued \<or> status iv = Draft) filteredData
      else if f = ''month'' then
        filter (\<lambda>iv. in_current_month e iv \<and> status iv = Issued) filteredData
      else if f = ''draft'' then
        filter (\<lambda>iv. status iv = Draft) filteredData
      else if f = ''paid'' then
        filter (\<lambda>iv. payment_status iv = Paid \<and> status iv = Issued) filteredData
      else if f = ''pending'' then
        filter (\<lambda>iv. payment_status iv \<noteq> Paid \<and> status iv = Issued) filteredData
      else if f = ''voided'' then
        filter (\<lambda>iv. status iv = Voided) filteredData
      else filteredData)"

definition applySorting :: "env \<Rightarrow> sort_config \<Rightarrow> invoice list \<Rightarrow> invoice list" where
  "applySorting e cfg filteredData = array_sort (compare_invoices e cfg) filteredData"

text \<open>\<^verbatim>\<open>loadInvoices\<close>: a rejected promise or a reported error is caught and leaves
  the list as it was; \<^verbatim>\<open>finally\<close> clears the loading flag.\<close>

definition loadInvoices :: "env \<Rightarrow> response \<Rightarrow> ui_state \<Rightarrow> ui_state" where
  "loadInvoices e resp st =
     (case resp of
        Rejected \<Rightarrow> st\<lparr>loading := False\<rparr>
      | Resolved data error \<Rightarrow>
          (case error of
             Some err \<Rightarrow> st\<lparr>loading := False\<rparr>
           | None \<Rightarrow>
               st\<lparr>invoices :=
                    applySorting e (sortConfig st)
                      (applyActiveFilter e (activeFilter st)
                        (applyDateRange (dateRange st)
                          (case data of None \<Rightarrow> [] | Some d \<Rightarrow> d))),
                  loading := False\<rparr>))"

definition total_of :: "invoice list \<Rightarrow> real" where
  "total_of xs = foldl (\<lambda>acc iv. acc + total_amount iv) 0 xs"

definition stat_of :: "invoice list \<Rightarrow> stat" where
  "stat_of xs = \<lparr>stat_count = length xs, stat_total = total_of xs\<rparr>"

text \<open>\<^verbatim>\<open>loadStats\<close> (without the product ranking): nothing is set when the promise
  rejects or \<^verbatim>\<open>data\<close> is null.\<close>

definition loadStats :: "env \<Rightarrow> response \<Rightarrow> ui_state \<Rightarrow> ui_state" where
  "loadStats e resp st =
     (case resp of
        Rejected \<Rightarrow> st
      | Resolved data error \<Rightarrow>
          (case data of
             None \<Rightarrow> st
           | Some monthlyData \<Rightarrow>
               (let monthlyInvoices = filter (in_current_month e) monthlyData
                in st\<lparr>stats :=
                     \<lparr>issuedInvoices =
                        stat_of (filter (\<lambda>iv. status iv = Issued) monthlyInvoices),
                      paidInvoices =
                        stat_of (filter (\<lambda>iv. status iv = Issued \<and> payment_status iv = Paid)
                                   monthlyInvoices),
                      pendingInvoices =
                        stat_of (filter (\<lambda>iv. status iv = Issued \<and> payment_status iv \<noteq> Paid)
                                   monthlyInvoices),
                      voidedInvoices =
                        stat_of (filter (\<lambda>iv. status iv = Voided) monthlyInvoices),
                      draftInvoices =
                        stat_of (filter (\<lambda>iv. status iv = Draft) monthlyInvoices)\<rparr>\<rparr>)))"

definition handleSort :: "sort_key \<Rightarrow> ui_state \<Rightarrow> ui_state" where
  "handleSort k st =
     st\<lparr>sortConfig :=
          \<lparr>key = k,
           direction =
             (if key (sortConfig st) = k \<and> direction (sortConfig st) = Asc
              then Desc else Asc)\<rparr>\<rparr>"

definition handleFilter :: "string \<Rightarrow> ui_state \<Rightarrow> ui_state" where
  "handleFilter f st =
     st\<lparr>activeFilter := (if activeFilter st = f then [] else f),
        currentPage := 1,
        dateRange :=
          (if f \<noteq> ''history'' then \<lparr>startDate = [], endDate = []\<rparr> else dateRange st)\<rparr>"

text \<open>The \<^verbatim>\<open>onChange\<close> handlers of the two date inputs (lines 629 and 636) and of the
  search box (line 617).\<close>

definition onChangeStartDate :: "string \<Rightarrow> ui_state \<Rightarrow> ui_state" where
  "onChangeStartDate v st = st\<lparr>dateRange := (dateRange st)\<lparr>startDate := v\<rparr>\<rparr>"

definition onChangeEndDate :: "string \<Rightarrow> ui_state \<Rightarrow> ui_state" where
  "onChangeEndDate v st = st\<lparr>dateRange := (dateRange st)\<lparr>endDate := v\<rparr>\<rparr>"

definition onChangeSearch :: "string \<Rightarrow> ui_state \<Rightarrow> ui_state" where
  "onChangeSearch v st = st\<lparr>search := v\<rparr>"

text \<open>\<^verbatim>\<open>handleExport\<close>: the arguments of the call to \<^verbatim>\<open>exportToCSV\<close>, or \<open>None\<close> when
  no call is made.\<close>

definition handleExport :: "ui_state \<Rightarrow> (invoice list \<times> string) option" where
  "handleExport st =
     (if length (invoices st) > 0 then Some (invoices st, ''invoices'') else None)"

definition str_includes :: "string \<Rightarrow> string \<Rightarrow> bool" where
  "str_includes s searchString = sublist searchString s"

definition filteredInvoices :: "env \<Rightarrow> ui_state \<Rightarrow> invoice list" where
  "filteredInvoices e st =
     filter (\<lambda>iv.
        str_includes (toLowerCase e (ncf iv)) (toLowerCase e (search st)) \<or>
        (case customer iv of
           None \<Rightarrow> False
         | Some c \<Rightarrow>
             str_includes (toLowerCase e (customer_full_name c)) (toLowerCase e (search st))))
       (invoices st)"

definition itemsPerPage :: int where
  "itemsPerPage = 30"

text \<open>\<^verbatim>\<open>Array.prototype.slice(start, end)\<close>: a negative index counts from the end, and
  both are clamped to the array.\<close>

definition slice :: "'a list \<Rightarrow> int \<Rightarrow> int \<Rightarrow> 'a list" where
  "slice xs start fin =
     (let n = int (length xs);
          k = (if start < 0 then max (n + start) 0 else min start n);
          f = (if fin < 0 then max (n + fin) 0 else min fin n)
      in take (nat (f - k)) (drop (nat k) xs))"

definition paginatedInvoices :: "env \<Rightarrow> ui_state \<Rightarrow> invoice list" where
  "paginatedInvoices e st =
     slice (filteredInvoices e st)
       ((currentPage st - 1) * itemsPerPage) (currentPage st * itemsPerPage)"

section \<open>Observations on a database\<close>

text \<open>Whether the partition of schema \<open>s\<close> exists and holds a row of identity \<open>uid\<close>
  whose role is \<^verbatim>\<open>admin\<close>.\<close>

definition has_admin_profile :: "database \<Rightarrow> string \<Rightarrow> uuid \<Rightarrow> bool" where
  "has_admin_profile db s uid =
     (case map_of db s of
        None \<Rightarrow> False
      | Some rows \<Rightarrow> filter (\<lambda>p. id_p p = uid \<and> role p = ''admin'') rows \<noteq> [])"

text \<open>The rank of an invoice's status in \<^verbatim>\<open>STATUS_ORDER\<close>, as an integer.\<close>

definition status_rank :: "invoice \<Rightarrow> int" where
  "status_rank iv = int (STATUS_ORDER (status iv))"

section \<open>Example inputs\<close>

text \<open>Concrete identities, profile rows, databases and invoices on which the
  theorems below are evaluated.\<close>

definition user_quimicinter :: auth_user where
  "user_quimicinter =
     \<lparr>user_id = ''a1'', user_email = ''ana@quimicinter.do'',
      raw_user_meta_data = [''schema_name'' \<mapsto> ''quimicinter'']\<rparr>"

definition admin_quimicinter :: auth_user where
  "admin_quimicinter =
     \<lparr>user_id = ''a1'', user_email = ''ana@quimicinter.do'',
      raw_user_meta_data = [''schema_name'' \<mapsto> ''quimicinter'', ''role'' \<mapsto> ''admin'']\<rparr>"

definition user_plain :: auth_user where
  "user_plain =
     \<lparr>user_id = ''b2'', user_email = ''luis@example.do'', raw_user_meta_data = Map.empty\<rparr>"

definition row :: "uuid \<Rightarrow> string \<Rightarrow> string \<Rightarrow> nat \<Rightarrow> profile" where
  "row uid r s t =
     \<lparr>id_p = uid, email = ''old@example.do'', full_name = ''Old Name'', role = r,
      status_p = ''inactive'', schema_name = s, created_at = t, updated_at = t\<rparr>"

definition db_empty :: database where
  "db_empty = [(''public'', []), (''quimicinter'', []), (''qalinkforce'', [])]"

definition db_one_user :: database where
  "db_one_user =
     [(''public'', []),
      (''quimicinter'', [row ''u1'' ''user'' ''quimicinter'' 1]),
      (''qalinkforce'', [])]"

definition db_mixed :: database where
  "db_mixed =
     [(''public'', [row ''u1'' ''user'' ''public'' 1]),
      (''quimicinter'', [row ''u1'' ''admin'' ''quimicinter'' 2]),
      (''qalinkforce'', [])]"

definition db_stale :: database where
  "db_stale =
     [(''public'', []),
      (''quimicinter'', []),
      (''qalinkforce'', [row ''u9'' ''user'' ''qalinkforce'' 1, row ''a1'' ''user'' ''qalinkforce'' 2])]"

definition db_after_admin :: database where
  "db_after_admin =
     [(''public'', []),
      (''quimicinter'', [new_profile 5 admin_quimicinter ''admin'' ''quimicinter'']),
      (''qalinkforce'', [new_profile 5 admin_quimicinter ''admin'' ''qalinkforce''])]"

definition db_stale_after :: database where
  "db_stale_after =
     [(''public'', []),
      (''quimicinter'', [new_profile 7 admin_quimicinter ''admin'' ''quimicinter'']),
      (''qalinkforce'',
        [row ''u9'' ''user'' ''qalinkforce'' 1,
         (row ''a1'' ''user'' ''qalinkforce'' 2)
           \<lparr>email := ''ana@quimicinter.do'', full_name := [], role := ''admin'',
            updated_at := 7\<rparr>])]"

definition db_one_user_after :: database where
  "db_one_user_after =
     [(''public'', []),
      (''quimicinter'',
        [row ''u1'' ''user'' ''quimicinter'' 1,
         new_profile 5 user_quimicinter ''admin'' ''quimicinter'']),
      (''qalinkforce'', [new_profile 5 user_quimicinter ''admin'' ''qalinkforce''])]"

definition env0 :: env where
  "env0 = \<lparr>parseDate = (\<lambda>s. None), firstDayOfMonth = 0, toLowerCase = (\<lambda>s. s)\<rparr>"

definition inv_draft :: invoice where
  "inv_draft =
     \<lparr>id_i = ''1'', ncf = ''B0100000001'', customer = None, issue_date = ''2024-01-05'',
      total_amount = 100, status = Draft, payment_status = Pending\<rparr>"

definition inv_draft2 :: invoice where
  "inv_draft2 =
     \<lparr>id_i = ''2'', ncf = ''B0100000002'', customer = Some \<lparr>customer_full_name = ''Ana''\<rparr>,
      issue_date = ''2024-01-06'', total_amount = 250, status = Draft,
      payment_status = Pending\<rparr>"

definition inv_partial :: invoice where
  "inv_partial =
     \<lparr>id_i = ''3'', ncf = ''B0100000003'', customer = None, issue_date = ''2024-01-07'',
      total_amount = 300, status = Issued, payment_status = Partial\<rparr>"

definition inv_voided :: invoice where
  "inv_voided =
     \<lparr>id_i = ''4'', ncf = ''B0100000004'', customer = None, issue_date = ''2024-01-08'',
      total_amount = 50, status = Voided, payment_status = Pending\<rparr>"

definition inv_paid :: invoice where
  "inv_paid =
     \<lparr>id_i = ''5'', ncf = ''B0100000005'', customer = None, issue_date = ''2024-01-09'',
      total_amount = 75, status = Issued, payment_status = Paid\<rparr>"

definition st_initial :: ui_state where
  "st_initial =
     \<lparr>invoices = [], loading = True, search = [], currentPage = 1, activeFilter = [],
      dateRange = \<lparr>startDate = [], endDate = []\<rparr>,
      stats = \<lparr>issuedInvoices = stat_of [], paidInvoices = stat_of [],
               pendingInvoices = stat_of [], voidedInvoices = stat_of [],
               draftInvoices = stat_of []\<rparr>,
      sortConfig = \<lparr>key = KStatus, direction = Asc\<rparr>\<rparr>"

definition st_paid_page3 :: ui_state where
  "st_paid_page3 = st_initial\<lparr>activeFilter := ''paid'', currentPage := 3\<rparr>"

definition env_all_month :: env where
  "env_all_month = \<lparr>parseDate = (\<lambda>s. Some 1), firstDayOfMonth = 0, toLowerCase = (\<lambda>s. s)\<rparr>"

definition st_searching :: ui_state where
  "st_searching =
     (loadInvoices env0 (Resolved (Some [inv_partial, inv_voided, inv_draft, inv_draft2]) None)
        st_initial)\<lparr>search := ''Ana'', currentPage := 2\<rparr>"

section \<open>Tenant resolution\<close>

text \<open>
  Claim C4. The trigger resolves the tenant from the metadata field
  \<^verbatim>\<open>schema_name\<close> when it is present; otherwise from the header \<^verbatim>\<open>x-schema-name\<close> when
  the request headers carry it; otherwise it is \<^verbatim>\<open>public\<close>, both when the headers lack
  the field and when there are no request headers at all.
\<close>

theorem v_schema_resolution:
  "(raw_user_meta_data new ''schema_name'' = Some s \<longrightarrow> v_schema hdrs new = Inr s) \<and>
   (raw_user_meta_data new ''schema_name'' = None \<and> h ''x-schema-name'' = Some s
      \<longrightarrow> v_schema (Json h) new = Inr s) \<and>
   (raw_user_meta_data new ''schema_name'' = None \<and> h ''x-schema-name'' = None
      \<longrightarrow> v_schema (Json h) new = Inr ''public'') \<and>
   (raw_user_meta_data new ''schema_name'' = None \<longrightarrow> v_schema Unset new = Inr ''public'')"
  by (simp add: v_schema_def)

theorem v_schema_resolution_witness:
  "v_schema NotJson user_quimicinter = Inr ''quimicinter'' \<and>
   v_schema (Json [''x-schema-name'' \<mapsto> ''qalinkforce'']) user_plain = Inr ''qalinkforce'' \<and>
   v_schema (Json Map.empty) user_plain = Inr ''public'' \<and>
   v_schema Unset user_plain = Inr ''public''"
  using v_schema_resolution [of user_quimicinter "''quimicinter''" NotJson Map.empty]
    v_schema_resolution [of user_plain "''qalinkforce''" Unset
      "[''x-schema-name'' \<mapsto> ''qalinkforce'']"]
    v_schema_resolution [of user_plain "''x''" Unset Map.empty]
  by (simp add: user_quimicinter_def user_plain_def)


section \<open>Effects of the provisioning trigger\<close>

lemma and_then_Inr: "and_then r f = Inr y \<longleftrightarrow> (\<exists>x. r = Inr x \<and> f x = Inr y)"
  by (cases r) (simp_all add: and_then_def)

lemma table_of_Inr: "table_of db s = Inr rows \<longleftrightarrow> map_of db s = Some rows"
  by (simp add: table_of_def split: option.splits)

lemma insert_into_Inr:
  assumes "insert_into oc s ex db = Inr db'"
  shows "\<exists>rows. map_of db s = Some rows \<and> map_of db' = (map_of db)(s \<mapsto> upsert oc ex rows)"
  using assms by (auto simp: insert_into_def and_then_Inr table_of_Inr update_conv')

lemma replicate_admin_map_of:
  assumes "replicate_admin now new s db1 = Inr db'"
  shows "map_of db' t =
           (if t \<noteq> s \<and> (t = ''quimicinter'' \<or> t = ''qalinkforce'')
            then map_option (upsert (set_admin now) (new_profile now new ''admin'' t)) (map_of db1 t)
            else map_of db1 t)"
    and "t \<noteq> s \<Longrightarrow> t = ''quimicinter'' \<or> t = ''qalinkforce'' \<Longrightarrow> map_of db1 t \<noteq> None"
proof -
  from assms obtain db2 where
    q: "(if s \<noteq> ''quimicinter''
         then insert_into (set_admin now) ''quimicinter''
                (new_profile now new ''admin'' ''quimicinter'') db1
         else Inr db1) = Inr db2"
    and l: "(if s \<noteq> ''qalinkforce''
         then insert_into (set_admin now) ''qalinkforce''
                (new_profile now new ''admin'' ''qalinkforce'') db2
         else Inr db2) = Inr db'"
    by (auto simp: replicate_admin_def and_then_Inr)
  have q': "map_of db2 t =
           (if t \<noteq> s \<and> t = ''quimicinter''
            then map_option (upsert (set_admin now) (new_profile now new ''admin'' t)) (map_of db1 t)
            else map_of db1 t)"
     and q'': "t \<noteq> s \<Longrightarrow> t = ''quimicinter'' \<Longrightarrow> map_of db1 t \<noteq> None"
    using q by (auto split: if_splits dest!: insert_into_Inr)
  have l': "map_of db' t =
           (if t \<noteq> s \<and> t = ''qalinkforce''
            then map_option (upsert (set_admin now) (new_profile now new ''admin'' t)) (map_of db2 t)
            else map_of db2 t)"
     and l'': "t \<noteq> s \<Longrightarrow> t = ''qalinkforce'' \<Longrightarrow> map_of db2 t \<noteq> None"
    using l by (auto split: if_splits dest!: insert_into_Inr)
  show "map_of db' t =
           (if t \<noteq> s \<and> (t = ''quimicinter'' \<or> t = ''qalinkforce'')
            then map_option (upsert (set_admin now) (new_profile now new ''admin'' t)) (map_of db1 t)
            else map_of db1 t)"
    using q' l' by auto
  show "t \<noteq> s \<Longrightarrow> t = ''quimicinter'' \<or> t = ''qalinkforce'' \<Longrightarrow> map_of db1 t \<noteq> None"
    using q'' l'' q' by auto
qed

lemma set_excluded_admin:
  "set_excluded now r (new_profile now new ''admin'' t) = set_admin now r (new_profile now new ''admin'' t)"
  by (simp add: set_excluded_def set_admin_def new_profile_def)

lemma upsert_cong_admin:
  "upsert (set_excluded now) (new_profile now new ''admin'' t) rows
     = upsert (set_admin now) (new_profile now new ''admin'' t) rows"
  by (simp add: upsert_def set_excluded_admin)

lemma handle_admin_effect:
  assumes run: "handle_new_auth_user now hdrs new db = Inr db'"
    and s: "v_schema hdrs new = Inr s"
    and r: "v_role db new s = Inr ''admin''"
  shows "map_of db' t =
           (if t = s \<or> t = ''quimicinter'' \<or> t = ''qalinkforce''
            then map_option (upsert (set_admin now) (new_profile now new ''admin'' t)) (map_of db t)
            else map_of db t)"
    and "t = s \<or> t = ''quimicinter'' \<or> t = ''qalinkforce'' \<Longrightarrow> map_of db t \<noteq> None"
proof -
  from run s r obtain db1 where
    a: "insert_into (set_excluded now) s (new_profile now new ''admin'' s) db = Inr db1"
    and b: "replicate_admin now new s db1 = Inr db'"
    by (auto simp: handle_new_auth_user_def and_then_Inr)
  from insert_into_Inr [OF a] obtain rows where
    c: "map_of db s = Some rows"
    and d: "map_of db1 = (map_of db)(s \<mapsto> upsert (set_admin now) (new_profile now new ''admin'' s) rows)"
    by (auto simp: upsert_cong_admin)
  show "map_of db' t =
           (if t = s \<or> t = ''quimicinter'' \<or> t = ''qalinkforce''
            then map_option (upsert (set_admin now) (new_profile now new ''admin'' t)) (map_of db t)
            else map_of db t)"
    using replicate_admin_map_of(1) [OF b, of t] c d by auto
  show "t = s \<or> t = ''quimicinter'' \<or> t = ''qalinkforce'' \<Longrightarrow> map_of db t \<noteq> None"
    using replicate_admin_map_of(2) [OF b, of t] c d by (cases "t = s") auto
qed

lemma upsert_admin_has_row:
  "filter (\<lambda>p. id_p p = user_id new \<and> role p = ''admin'')
     (upsert (set_admin now) (new_profile now new ''admin'' t) rows) \<noteq> []"
proof (cases "user_id new \<in> set (map id_p rows)")
  case True
  then obtain r where "r \<in> set rows" "id_p r = user_id new" by auto
  then have "set_admin now r (new_profile now new ''admin'' t)
      \<in> set (upsert (set_admin now) (new_profile now new ''admin'' t) rows)"
    using True by (force simp: upsert_def new_profile_def)
  moreover have "id_p (set_admin now r (new_profile now new ''admin'' t)) = user_id new"
     "role (set_admin now r (new_profile now new ''admin'' t)) = ''admin''"
    using \<open>id_p r = user_id new\<close> by (simp_all add: set_admin_def)
  ultimately show ?thesis by (auto simp: filter_empty_conv)
next
  case False
  then show ?thesis by (simp add: upsert_def new_profile_def)
qed

lemma upsert_existing:
  assumes "p \<in> set rows" "id_p p = id_p ex"
  shows "upsert oc ex rows = map (\<lambda>r. if id_p r = id_p ex then oc r ex else r) rows"
proof -
  have "id_p p \<in> id_p ` set rows" using assms(1) by (rule imageI)
  then have "id_p ex \<in> set (map id_p rows)" using assms(2) by simp
  then show ?thesis by (simp add: upsert_def)
qed

text \<open>
  Claim C2, as amended. After an invocation of the trigger that completes with resolved
  role \<^verbatim>\<open>admin\<close>, the new identity has a row with role \<^verbatim>\<open>admin\<close> in the partition of
  the resolved tenant and in both tenants of the fixed replication set, quimicinter
  and qalinkforce. The default tenant is not in that set: unless it is the
  resolved tenant, its partition is left as it was.
\<close>

theorem admin_rows_after_provisioning:
  assumes "handle_new_auth_user now hdrs new db = Inr db'"
    and "v_schema hdrs new = Inr s"
    and "v_role db new s = Inr ''admin''"
  shows "has_admin_profile db' s (user_id new) \<and>
         has_admin_profile db' ''quimicinter'' (user_id new) \<and>
         has_admin_profile db' ''qalinkforce'' (user_id new) \<and>
         (s \<noteq> ''public'' \<longrightarrow> map_of db' ''public'' = map_of db ''public'')"
proof -
  have row: "has_admin_profile db' t (user_id new)"
    if "t = s \<or> t = ''quimicinter'' \<or> t = ''qalinkforce''" for t
    using handle_admin_effect [OF assms, of t] that
    by (auto simp: has_admin_profile_def upsert_admin_has_row)
  have "map_of db' ''public'' = map_of db ''public''" if "s \<noteq> ''public''"
    using handle_admin_effect(1) [OF assms, of "''public''"] that by simp
  with row show ?thesis by blast
qed

text \<open>
  Claim C2, as stated, fails: an administrator provisioned into quimicinter gets
  rows in quimicinter and qalinkforce and none in the default tenant \<^verbatim>\<open>public\<close>,
  which is a known tenant (the access validator reads it).
\<close>

theorem admin_not_replicated_to_public:
  "handle_new_auth_user 5 Unset admin_quimicinter db_empty = Inr db_after_admin \<and>
   v_schema Unset admin_quimicinter = Inr ''quimicinter'' \<and>
   v_role db_empty admin_quimicinter ''quimicinter'' = Inr ''admin'' \<and>
   map_of db_after_admin ''public'' = Some [] \<and>
   \<not> has_admin_profile db_after_admin ''public'' ''a1''"
  by (simp add: handle_new_auth_user_def v_schema_def v_role_def and_then_def table_of_def
      insert_into_def upsert_def replicate_admin_def new_profile_def new_full_name_def
      admin_quimicinter_def db_empty_def db_after_admin_def has_admin_profile_def)

theorem admin_rows_after_provisioning_witness:
  "has_admin_profile db_after_admin ''quimicinter'' ''a1'' \<and>
   has_admin_profile db_after_admin ''qalinkforce'' ''a1'' \<and>
   map_of db_after_admin ''public'' = map_of db_empty ''public''"
proof -
  have run: "handle_new_auth_user 5 Unset admin_quimicinter db_empty = Inr db_after_admin"
    by (simp add: handle_new_auth_user_def v_schema_def v_role_def and_then_def table_of_def
      insert_into_def upsert_def replicate_admin_def new_profile_def new_full_name_def
      admin_quimicinter_def db_empty_def db_after_admin_def)
  have s: "v_schema Unset admin_quimicinter = Inr ''quimicinter''"
    by (simp add: v_schema_def admin_quimicinter_def)
  have r: "v_role db_empty admin_quimicinter ''quimicinter'' = Inr ''admin''"
    by (simp add: v_role_def and_then_def table_of_def admin_quimicinter_def db_empty_def)
  show ?thesis
    using admin_rows_after_provisioning [OF run s r] by (simp add: admin_quimicinter_def)
qed

text \<open>
  Claim C9. When an administrator is provisioned and a row of the same identity
  already exists in quimicinter or qalinkforce, the upsert rewrites exactly that row:
  its role becomes \<^verbatim>\<open>admin\<close> whatever it was, email, full name and updated timestamp
  take the new values, and id, status, schema name and created timestamp stay; no
  other row of the table changes and none is added.
\<close>

theorem replication_overwrites_existing_row:
  assumes "handle_new_auth_user now hdrs new db = Inr db'"
    and "v_schema hdrs new = Inr s"
    and "v_role db new s = Inr ''admin''"
    and "t = ''quimicinter'' \<or> t = ''qalinkforce''"
    and "map_of db t = Some rows"
    and "p \<in> set rows" and "id_p p = user_id new"
  shows "map_of db' t =
           Some (map (\<lambda>r. if id_p r = user_id new
                          then r\<lparr>email := user_email new, full_name := new_full_name new,
                                 role := ''admin'', updated_at := now\<rparr>
                          else r) rows)"
proof -
  have "id_p p = id_p (new_profile now new ''admin'' t)"
    using assms(7) by (simp add: new_profile_def)
  from upsert_existing [OF assms(6) this, of "set_admin now"]
  have "upsert (set_admin now) (new_profile now new ''admin'' t) rows =
          map (\<lambda>r. if id_p r = user_id new
                    then r\<lparr>email := user_email new, full_name := new_full_name new,
                           role := ''admin'', updated_at := now\<rparr>
                    else r) rows"
    by (simp add: set_admin_def new_profile_def)
  then show ?thesis
    using handle_admin_effect(1) [OF assms(1-3), of t] assms(4,5) by auto
qed

theorem replication_overwrites_existing_row_witness:
  "map_of db_stale_after ''qalinkforce'' =
     Some [row ''u9'' ''user'' ''qalinkforce'' 1,
           \<lparr>id_p = ''a1'', email = ''ana@quimicinter.do'', full_name = [], role = ''admin'',
            status_p = ''inactive'', schema_name = ''qalinkforce'', created_at = 2,
            updated_at = 7\<rparr>]"
proof -
  have run: "handle_new_auth_user 7 Unset admin_quimicinter db_stale = Inr db_stale_after"
    by (simp add: handle_new_auth_user_def v_schema_def v_role_def and_then_def table_of_def
      insert_into_def upsert_def replicate_admin_def new_profile_def new_full_name_def
      set_admin_def admin_quimicinter_def db_stale_def db_stale_after_def row_def)
  have s: "v_schema Unset admin_quimicinter = Inr ''quimicinter''"
    by (simp add: v_schema_def admin_quimicinter_def)
  have r: "v_role db_stale admin_quimicinter ''quimicinter'' = Inr ''admin''"
    by (simp add: v_role_def and_then_def table_of_def admin_quimicinter_def db_stale_def)
  have t: "''qalinkforce'' = ''quimicinter'' \<or> ''qalinkforce'' = ''qalinkforce''"
    by simp
  have rows: "map_of db_stale ''qalinkforce'' =
      Some [row ''u9'' ''user'' ''qalinkforce'' 1, row ''a1'' ''user'' ''qalinkforce'' 2]"
    by (simp add: db_stale_def)
  have p: "row ''a1'' ''user'' ''qalinkforce'' 2
      \<in> set [row ''u9'' ''user'' ''qalinkforce'' 1, row ''a1'' ''user'' ''qalinkforce'' 2]"
    by simp
  have i: "id_p (row ''a1'' ''user'' ''qalinkforce'' 2) = user_id admin_quimicinter"
    by (simp add: row_def admin_quimicinter_def)
  show ?thesis
    using replication_overwrites_existing_row [OF run s r t rows p i]
    by (simp add: row_def admin_quimicinter_def new_full_name_def)
qed


text \<open>
  Claim C3 fails on the code. For an identity without an explicit role the trigger
  tests whether \<^verbatim>\<open>public.profiles\<close> holds a row whose \<^verbatim>\<open>schema_name\<close> is the resolved
  tenant; the resolved tenant's own partition, into which the row is then inserted,
  is not read. Here quimicinter already has a profile, and the next identity
  registering for quimicinter with no role is made \<^verbatim>\<open>admin\<close> and replicated.
\<close>

theorem first_registrant_rule_reads_public_only:
  "map_of db_one_user ''quimicinter'' = Some [row ''u1'' ''user'' ''quimicinter'' 1] \<and>
   raw_user_meta_data user_quimicinter ''role'' = None \<and>
   v_schema Unset user_quimicinter = Inr ''quimicinter'' \<and>
   v_role db_one_user user_quimicinter ''quimicinter'' = Inr ''admin'' \<and>
   handle_new_auth_user 5 Unset user_quimicinter db_one_user = Inr db_one_user_after"
  by (simp add: handle_new_auth_user_def v_schema_def v_role_def and_then_def table_of_def
      insert_into_def upsert_def replicate_admin_def new_profile_def new_full_name_def
      user_quimicinter_def db_one_user_def db_one_user_after_def row_def)

section \<open>Access validation\<close>

lemma validate_login_access_eval:
  assumes "map_of db ''public'' = Some pub"
    and "map_of db ''quimicinter'' = Some qui"
    and "map_of db ''qalinkforce'' = Some qal"
  shows "validate_login_access db uid t =
           (case user_info pub qui qal uid of
              [] \<Rightarrow> Inr False
            | p # _ \<Rightarrow> if role p = ''admin'' then Inr True else Inr (schema_name p = t))"
  using assms by (simp add: validate_login_access_def and_then_def table_of_def)

text \<open>
  Claim C1, as amended. With the three known partitions present, the validator
  decides on the first profile found for the identity, reading \<^verbatim>\<open>public\<close>, then
  quimicinter, then qalinkforce. It returns true whatever the requested tenant when
  that profile has role \<^verbatim>\<open>admin\<close>, in particular when every profile of the identity
  has role \<^verbatim>\<open>admin\<close>; when the first profile found has another role it returns
  whether that profile's \<^verbatim>\<open>schema_name\<close> equals the requested tenant, whatever the
  profiles found after it say, and so in particular for an identity whose only
  profile has another role; and it returns false when the identity has no profile
  in any of the three partitions.
\<close>

theorem validate_login_access_first_profile:
  assumes "map_of db ''public'' = Some pub"
    and "map_of db ''quimicinter'' = Some qui"
    and "map_of db ''qalinkforce'' = Some qal"
  shows "(user_info pub qui qal uid \<noteq> [] \<and>
            list_all (\<lambda>p. role p = ''admin'') (user_info pub qui qal uid)
            \<longrightarrow> validate_login_access db uid t = Inr True) \<and>
         (user_info pub qui qal uid = p # ps \<and> role p = ''admin''
            \<longrightarrow> validate_login_access db uid t = Inr True) \<and>
         (user_info pub qui qal uid = [p] \<and> role p \<noteq> ''admin''
            \<longrightarrow> validate_login_access db uid t = Inr (schema_name p = t)) \<and>
         (user_info pub qui qal uid = p # ps \<and> role p \<noteq> ''admin''
            \<longrightarrow> validate_login_access db uid t = Inr (schema_name p = t)) \<and>
         (user_info pub qui qal uid = []
            \<longrightarrow> validate_login_access db uid t = Inr False)"
  unfolding validate_login_access_eval [OF assms]
  by (cases "user_info pub qui qal uid") auto

text \<open>
  Claim C1, as stated, fails: an identity with role \<^verbatim>\<open>user\<close> in \<^verbatim>\<open>public\<close> and role
  \<^verbatim>\<open>admin\<close> in quimicinter has a profile with role \<^verbatim>\<open>admin\<close> in a known partition and
  is still denied quimicinter, because the first profile found decides.
\<close>

theorem validate_login_access_mixed_roles:
  "has_admin_profile db_mixed ''quimicinter'' ''u1'' \<and>
   validate_login_access db_mixed ''u1'' ''quimicinter'' = Inr False"
  by (simp add: has_admin_profile_def validate_login_access_def and_then_def table_of_def
      user_info_def db_mixed_def row_def)

theorem validate_login_access_first_profile_witness:
  "validate_login_access db_after_admin ''a1'' ''public'' = Inr True \<and>
   validate_login_access db_one_user ''u1'' ''quimicinter'' = Inr True \<and>
   validate_login_access db_one_user ''u1'' ''public'' = Inr False \<and>
   validate_login_access db_one_user ''zz'' ''public'' = Inr False \<and>
   validate_login_access db_mixed ''u1'' ''public'' = Inr True \<and>
   validate_login_access db_mixed ''u1'' ''qalinkforce'' = Inr False"
proof -
  have m: "map_of db_mixed ''public'' = Some [row ''u1'' ''user'' ''public'' 1]"
    "map_of db_mixed ''quimicinter'' = Some [row ''u1'' ''admin'' ''quimicinter'' 2]"
    "map_of db_mixed ''qalinkforce'' = Some []"
    by (simp_all add: db_mixed_def)
  have a: "map_of db_after_admin ''public'' = Some []"
    "map_of db_after_admin ''quimicinter'' =
       Some [new_profile 5 admin_quimicinter ''admin'' ''quimicinter'']"
    "map_of db_after_admin ''qalinkforce'' =
       Some [new_profile 5 admin_quimicinter ''admin'' ''qalinkforce'']"
    by (simp_all add: db_after_admin_def)
  have u: "map_of db_one_user ''public'' = Some []"
    "map_of db_one_user ''quimicinter'' = Some [row ''u1'' ''user'' ''quimicinter'' 1]"
    "map_of db_one_user ''qalinkforce'' = Some []"
    by (simp_all add: db_one_user_def)
  have 1: "validate_login_access db_after_admin ''a1'' ''public'' = Inr True"
    using validate_login_access_first_profile [OF a, where uid = "''a1''" and t = "''public''"]
    by (simp add: user_info_def new_profile_def admin_quimicinter_def)
  have 2: "validate_login_access db_one_user ''u1'' ''quimicinter'' = Inr True"
    using validate_login_access_first_profile [OF u, where uid = "''u1''"
        and p = "row ''u1'' ''user'' ''quimicinter'' 1" and t = "''quimicinter''"]
    by (simp add: user_info_def row_def)
  have 3: "validate_login_access db_one_user ''u1'' ''public'' = Inr False"
    using validate_login_access_first_profile [OF u, where uid = "''u1''"
        and p = "row ''u1'' ''user'' ''quimicinter'' 1" and t = "''public''"]
    by (simp add: user_info_def row_def)
  have 4: "validate_login_access db_one_user ''zz'' ''public'' = Inr False"
    using validate_login_access_first_profile [OF u, where uid = "''zz''" and t = "''public''"]
    by (simp add: user_info_def row_def)
  have 5: "validate_login_access db_mixed ''u1'' ''public'' = Inr True"
    using validate_login_access_first_profile [OF m, where uid = "''u1''"
        and p = "row ''u1'' ''user'' ''public'' 1"
        and ps = "[row ''u1'' ''admin'' ''quimicinter'' 2]" and t = "''public''"]
    by (simp add: user_info_def row_def)
  have 6: "validate_login_access db_mixed ''u1'' ''qalinkforce'' = Inr False"
    using validate_login_access_first_profile [OF m, where uid = "''u1''"
        and p = "row ''u1'' ''user'' ''public'' 1"
        and ps = "[row ''u1'' ''admin'' ''quimicinter'' 2]" and t = "''qalinkforce''"]
    by (simp add: user_info_def row_def)
  from 1 2 3 4 5 6 show ?thesis by simp
qed



section \<open>The invoice list: filters\<close>

lemma mset_insort_cmp: "mset (insort_cmp cmp x xs) = add_mset x (mset xs)"
  by (induction xs) simp_all

lemma mset_array_sort: "mset (array_sort cmp xs) = mset xs"
  by (induction xs) (simp_all add: array_sort_def mset_insort_cmp)

lemma set_array_sort: "set (array_sort cmp xs) = set xs"
  using mset_array_sort [of cmp xs] by (metis set_mset_mset)

lemma invoices_loadInvoices:
  "invoices (loadInvoices e (Resolved data None) st) =
     applySorting e (sortConfig st)
       (applyActiveFilter e (activeFilter st)
         (applyDateRange (dateRange st) (case data of None \<Rightarrow> [] | Some d \<Rightarrow> d)))"
  by (simp add: loadInvoices_def)

text \<open>
  Claim C5. When no category filter is active and the date range is not set (one
  of its two ends is empty), the list that \<^verbatim>\<open>loadInvoices\<close> puts on display holds
  exactly the fetched invoices whose status is draft or issued, each as often as
  it was fetched: a voided invoice is never in it, and a draft invoice is, whatever
  its payment status.
\<close>

theorem default_view_draft_and_issued:
  assumes "activeFilter st = []"
    and "startDate (dateRange st) = [] \<or> endDate (dateRange st) = []"
  shows "mset (invoices (loadInvoices e (Resolved (Some data) None) st)) =
           filter_mset (\<lambda>iv. status iv = Draft \<or> status iv = Issued) (mset data) \<and>
         (iv \<in> set (invoices (loadInvoices e (Resolved (Some data) None) st)) \<longleftrightarrow>
            iv \<in> set data \<and> (status iv = Draft \<or> status iv = Issued))"
proof -
  have "invoices (loadInvoices e (Resolved (Some data) None) st) =
          array_sort (compare_invoices e (sortConfig st))
            (filter (\<lambda>iv. status iv = Issued \<or> status iv = Draft) data)"
    using assms
    by (auto simp: invoices_loadInvoices applySorting_def applyActiveFilter_def applyDateRange_def)
  then show ?thesis
    by (auto simp: mset_array_sort set_array_sort intro: filter_mset_cong)
qed

theorem default_view_draft_and_issued_witness:
  "mset (invoices (loadInvoices env0 (Resolved (Some [inv_voided, inv_draft, inv_paid]) None)
      st_initial)) = {#inv_draft, inv_paid#} \<and>
   inv_draft \<in> set (invoices (loadInvoices env0
      (Resolved (Some [inv_voided, inv_draft, inv_paid]) None) st_initial)) \<and>
   inv_voided \<notin> set (invoices (loadInvoices env0
      (Resolved (Some [inv_voided, inv_draft, inv_paid]) None) st_initial))"
proof -
  have a: "activeFilter st_initial = []" by (simp add: st_initial_def)
  have b: "startDate (dateRange st_initial) = [] \<or> endDate (dateRange st_initial) = []"
    by (simp add: st_initial_def)
  show ?thesis
    using default_view_draft_and_issued [OF a b, of env0 "[inv_voided, inv_draft, inv_paid]" inv_draft]
      default_view_draft_and_issued [OF a b, of env0 "[inv_voided, inv_draft, inv_paid]" inv_voided]
    by (simp add: inv_voided_def inv_draft_def inv_paid_def)
qed

lemma total_of_sum_list: "total_of xs = sum_list (map total_amount xs)"
proof -
  have "foldl (\<lambda>acc iv. acc + total_amount iv) a xs = a + sum_list (map total_amount xs)" for a
    by (induction xs arbitrary: a) simp_all
  then show ?thesis by (simp add: total_of_def)
qed

text \<open>
  Claim C8. Under the category filter \<^verbatim>\<open>pending\<close> the list holds exactly the invoices
  (of the date range, when one is set) whose status is issued and whose payment
  status is not paid; the pending statistic is the count and the total of the
  invoices of the current month that satisfy the same test. So a partially paid
  issued invoice is pending, and a draft or voided one never is.
\<close>

theorem pending_filter_and_statistic:
  "mset (invoices (loadInvoices e (Resolved (Some data) None) (st\<lparr>activeFilter := ''pending''\<rparr>))) =
     filter_mset (\<lambda>iv. status iv = Issued \<and> payment_status iv \<noteq> Paid)
       (mset (applyDateRange (dateRange st) data)) \<and>
   (iv \<in> set (invoices (loadInvoices e (Resolved (Some data) None)
              (st\<lparr>activeFilter := ''pending''\<rparr>))) \<longleftrightarrow>
      iv \<in> set (applyDateRange (dateRange st) data) \<and>
      status iv = Issued \<and> payment_status iv \<noteq> Paid) \<and>
   pendingInvoices (stats (loadStats e (Resolved (Some data) err) st)) =
     stat_of (filter (\<lambda>iv. status iv = Issued \<and> payment_status iv \<noteq> Paid)
                (filter (in_current_month e) data)) \<and>
   stat_count (stat_of xs) = length xs \<and>
   stat_total (stat_of xs) = sum_list (map total_amount xs)"
proof -
  have "invoices (loadInvoices e (Resolved (Some data) None) (st\<lparr>activeFilter := ''pending''\<rparr>)) =
          array_sort (compare_invoices e (sortConfig st))
            (filter (\<lambda>iv. payment_status iv \<noteq> Paid \<and> status iv = Issued)
               (applyDateRange (dateRange st) data))"
    by (simp add: invoices_loadInvoices applySorting_def applyActiveFilter_def)
  then have "mset (invoices (loadInvoices e (Resolved (Some data) None)
                (st\<lparr>activeFilter := ''pending''\<rparr>))) =
     filter_mset (\<lambda>iv. status iv = Issued \<and> payment_status iv \<noteq> Paid)
       (mset (applyDateRange (dateRange st) data))"
    and "iv \<in> set (invoices (loadInvoices e (Resolved (Some data) None)
              (st\<lparr>activeFilter := ''pending''\<rparr>))) \<longleftrightarrow>
      iv \<in> set (applyDateRange (dateRange st) data) \<and>
      status iv = Issued \<and> payment_status iv \<noteq> Paid"
    by (auto simp: mset_array_sort set_array_sort intro: filter_mset_cong)
  moreover have "pendingInvoices (stats (loadStats e (Resolved (Some data) err) st)) =
     stat_of (filter (\<lambda>iv. status iv = Issued \<and> payment_status iv \<noteq> Paid)
                (filter (in_current_month e) data))"
    by (simp add: loadStats_def Let_def)
  moreover have "stat_count (stat_of xs) = length xs"
    "stat_total (stat_of xs) = sum_list (map total_amount xs)"
    by (simp_all add: stat_of_def total_of_sum_list)
  ultimately show ?thesis by blast
qed

theorem pending_filter_and_statistic_witness:
  "mset (invoices (loadInvoices env_all_month
      (Resolved (Some [inv_voided, inv_draft, inv_partial, inv_paid]) None)
      (st_initial\<lparr>activeFilter := ''pending''\<rparr>))) = {#inv_partial#} \<and>
   pendingInvoices (stats (loadStats env_all_month
      (Resolved (Some [inv_voided, inv_draft, inv_partial, inv_paid]) None) st_initial)) =
     \<lparr>stat_count = 1, stat_total = 300\<rparr>"
  using pending_filter_and_statistic [of env_all_month
      "[inv_voided, inv_draft, inv_partial, inv_paid]" st_initial inv_partial None "[inv_partial]"]
  by (simp add: inv_voided_def inv_draft_def inv_partial_def inv_paid_def st_initial_def
      applyDateRange_def in_current_month_def env_all_month_def stat_of_def total_of_def)

text \<open>
  Claim C7, as amended. Selecting a category filter other than \<^verbatim>\<open>history\<close> clears the
  date range; selecting \<^verbatim>\<open>history\<close> keeps it; every selection sets the current page
  to 1 and toggles the active filter. Changing the start or the end date changes
  the date range only: the active category filter and the current page stay.
\<close>

theorem handlers_of_filters_and_dates:
  "(f \<noteq> ''history'' \<longrightarrow>
      dateRange (handleFilter f st) = \<lparr>startDate = [], endDate = []\<rparr>) \<and>
   dateRange (handleFilter ''history'' st) = dateRange st \<and>
   currentPage (handleFilter f st) = 1 \<and>
   activeFilter (handleFilter f st) = (if activeFilter st = f then [] else f) \<and>
   activeFilter (onChangeStartDate v st) = activeFilter st \<and>
   currentPage (onChangeStartDate v st) = currentPage st \<and>
   activeFilter (onChangeEndDate v st) = activeFilter st \<and>
   currentPage (onChangeEndDate v st) = currentPage st"
  by (simp add: handleFilter_def onChangeStartDate_def onChangeEndDate_def)

text \<open>
  Claim C7, as stated, fails: with the category \<^verbatim>\<open>paid\<close> active on page 3, setting both
  dates leaves the category \<^verbatim>\<open>paid\<close> active, next to the date range, and the page at 3.
\<close>

theorem date_range_keeps_category:
  "activeFilter (onChangeEndDate ''2024-01-31'' (onChangeStartDate ''2024-01-01'' st_paid_page3))
     = ''paid'' \<and>
   dateRange (onChangeEndDate ''2024-01-31'' (onChangeStartDate ''2024-01-01'' st_paid_page3))
     = \<lparr>startDate = ''2024-01-01'', endDate = ''2024-01-31''\<rparr> \<and>
   currentPage (onChangeEndDate ''2024-01-31'' (onChangeStartDate ''2024-01-01'' st_paid_page3))
     = 3"
  by (simp add: onChangeStartDate_def onChangeEndDate_def st_paid_page3_def st_initial_def)

theorem handlers_of_filters_and_dates_witness:
  "dateRange (handleFilter ''paid''
      (st_initial\<lparr>dateRange := \<lparr>startDate = ''2024-01-01'', endDate = ''2024-01-31''\<rparr>,
                  currentPage := 4\<rparr>)) = \<lparr>startDate = [], endDate = []\<rparr> \<and>
   currentPage (handleFilter ''paid''
      (st_initial\<lparr>dateRange := \<lparr>startDate = ''2024-01-01'', endDate = ''2024-01-31''\<rparr>,
                  currentPage := 4\<rparr>)) = 1"
proof -
  have h: "''paid'' \<noteq> ''history''" by simp
  show ?thesis
    using handlers_of_filters_and_dates [of "''paid''"
      "st_initial\<lparr>dateRange := \<lparr>startDate = ''2024-01-01'', endDate = ''2024-01-31''\<rparr>,
                  currentPage := 4\<rparr>"] h
    by simp
qed

section \<open>The invoice list: CSV export\<close>

text \<open>
  Claim C10. The export passes the list held in the component state to
  \<^verbatim>\<open>exportToCSV\<close>, and makes no call when that list is empty. The search text and the
  current page do not enter: the exported list is the one \<^verbatim>\<open>loadInvoices\<close> stored
  (date range, category, sort), not the searched or paginated one.
\<close>

theorem csv_export_of_component_list:
  "handleExport st = (if invoices st = [] then None else Some (invoices st, ''invoices'')) \<and>
   handleExport (st\<lparr>search := q, currentPage := n\<rparr>) = handleExport st \<and>
   handleExport (loadInvoices e (Resolved data None) st) =
     (if applySorting e (sortConfig st)
           (applyActiveFilter e (activeFilter st)
             (applyDateRange (dateRange st) (case data of None \<Rightarrow> [] | Some d \<Rightarrow> d))) = []
      then None
      else Some (applySorting e (sortConfig st)
                  (applyActiveFilter e (activeFilter st)
                    (applyDateRange (dateRange st) (case data of None \<Rightarrow> [] | Some d \<Rightarrow> d))),
                 ''invoices''))"
  by (simp add: handleExport_def invoices_loadInvoices)

theorem csv_export_of_component_list_witness:
  "handleExport st_searching = Some ([inv_draft, inv_draft2, inv_partial], ''invoices'') \<and>
   filteredInvoices env0 st_searching = [inv_draft2] \<and>
   paginatedInvoices env0 st_searching = [] \<and>
   handleExport st_initial = None"
proof -
  have l: "invoices st_searching = [inv_draft, inv_draft2, inv_partial]"
    by (simp add: st_searching_def loadInvoices_def st_initial_def applySorting_def
        applyActiveFilter_def applyDateRange_def array_sort_def compare_invoices_def
        inv_draft_def inv_draft2_def inv_partial_def inv_voided_def)
  have f: "filteredInvoices env0 st_searching = [inv_draft2]"
    unfolding filteredInvoices_def l
    by (simp add: st_searching_def env0_def str_includes_def sublist_code prefix_code
        inv_draft_def inv_draft2_def inv_partial_def)
  have p: "paginatedInvoices env0 st_searching = []"
    unfolding paginatedInvoices_def f
    by (simp add: slice_def itemsPerPage_def st_searching_def)
  have e: "handleExport st_searching = Some ([inv_draft, inv_draft2, inv_partial], ''invoices'')"
    using csv_export_of_component_list [of st_searching] l by simp
  have n: "handleExport st_initial = None"
    using csv_export_of_component_list [of st_initial] by (simp add: st_initial_def)
  from e f p n show ?thesis by simp
qed


section \<open>The invoice list: sorting by status\<close>

lemma STATUS_ORDER_inj: "STATUS_ORDER a = STATUS_ORDER b \<longleftrightarrow> a = b"
  by (cases a; cases b) simp_all

lemma compare_status_asc:
  "compare_invoices e \<lparr>key = KStatus, direction = Asc\<rparr> a b \<le> 0
     \<longleftrightarrow> status_rank a \<le> status_rank b"
  by (simp add: compare_invoices_def status_rank_def)

lemma compare_status_desc:
  "compare_invoices e \<lparr>key = KStatus, direction = Desc\<rparr> a b \<le> 0
     \<longleftrightarrow> - status_rank a \<le> - status_rank b"
  by (simp add: compare_invoices_def status_rank_def)

lemma insort_cmp_insort_key:
  assumes "\<And>a b. cmp a b \<le> 0 \<longleftrightarrow> f a \<le> f b"
  shows "insort_cmp cmp x ys = insort_key f x ys"
  by (induction ys) (simp_all add: assms)

lemma array_sort_sort_key:
  assumes "\<And>a b. cmp a b \<le> 0 \<longleftrightarrow> f a \<le> f b"
  shows "array_sort cmp xs = sort_key f xs"
  by (induction xs) (simp_all add: array_sort_def insort_cmp_insort_key [OF assms])

lemma sort_status_asc:
  "applySorting e \<lparr>key = KStatus, direction = Asc\<rparr> xs = sort_key status_rank xs"
  unfolding applySorting_def by (rule array_sort_sort_key) (rule compare_status_asc)

lemma sort_status_desc:
  "applySorting e \<lparr>key = KStatus, direction = Desc\<rparr> xs = sort_key (\<lambda>iv. - status_rank iv) xs"
  unfolding applySorting_def by (rule array_sort_sort_key) (rule compare_status_desc)

lemma sort_key_uminus:
  fixes f :: "'a \<Rightarrow> int"
  shows "sort_key (\<lambda>x. - f x) xs = rev (sort_key f (rev xs))"
proof (rule properties_for_sort_key)
  show "mset (rev (sort_key f (rev xs))) = mset xs" by simp
next
  fix k
  have "filter (\<lambda>x. f x = f k) (sort_key f (rev xs)) = filter (\<lambda>x. f x = f k) (rev xs)"
    by (rule sort_key_stable)
  then have "rev (filter (\<lambda>x. f x = f k) (sort_key f (rev xs))) = filter (\<lambda>x. f x = f k) xs"
    by (simp add: rev_filter)
  moreover have "(\<lambda>x. - f k = - f x) = (\<lambda>x. f x = f k)" by auto
  ultimately show "filter (\<lambda>x. - f k = - f x) (rev (sort_key f (rev xs))) = filter (\<lambda>x. - f k = - f x) xs"
    by (simp add: rev_filter)
next
  have "sorted (map f (sort_key f (rev xs)))" by simp
  then have "sorted_wrt (\<lambda>x y. f x \<le> f y) (sort_key f (rev xs))"
    by (simp add: sorted_wrt_map)
  then have "sorted_wrt (\<lambda>x y. - f x \<le> - f y) (rev (sort_key f (rev xs)))"
    by (simp add: sorted_wrt_rev)
  then show "sorted (map (\<lambda>x. - f x) (rev (sort_key f (rev xs))))"
    by (simp add: sorted_wrt_map)
qed

lemma map_key_sort_key:
  fixes f :: "'a \<Rightarrow> int"
  shows "map f (sort_key f xs) = sort (map f xs)"
  by (rule properties_for_sort [symmetric]) simp_all

lemma sort_rev: "sort (rev xs) = sort (xs :: int list)"
  by (rule properties_for_sort) simp_all

lemma rev_filter_le1:
  assumes "distinct (map f xs)"
  shows "filter (\<lambda>x. f x = c) (rev xs) = filter (\<lambda>x. f x = c) xs"
proof -
  have "length (filter (\<lambda>x. f x = c) xs) \<le> 1"
    using assms
  proof (induction xs)
    case Nil
    then show ?case by simp
  next
    case (Cons x xs)
    then have ih: "length (filter (\<lambda>x. f x = c) xs) \<le> 1"
      and fresh: "f x \<notin> f ` set xs" by simp_all
    show ?case
    proof (cases "f x = c")
      case True
      have "f y \<noteq> c" if "y \<in> set xs" for y
        using fresh True that by (metis imageI)
      then have "filter (\<lambda>x. f x = c) xs = []"
        by (simp add: filter_empty_conv)
      with True show ?thesis by simp
    next
      case False
      with ih show ?thesis by simp
    qed
  qed
  then have "rev (filter (\<lambda>x. f x = c) xs) = filter (\<lambda>x. f x = c) xs"
    by (cases "filter (\<lambda>x. f x = c) xs") (auto simp: le_Suc_eq)
  then show ?thesis by (simp add: rev_filter)
qed

lemma sort_key_rev_distinct:
  fixes f :: "'a \<Rightarrow> int"
  assumes "distinct (map f xs)"
  shows "sort_key f (rev xs) = sort_key f xs"
proof (rule properties_for_sort_key)
  show "mset (sort_key f xs) = mset (rev xs)" by simp
  show "sorted (map f (sort_key f xs))" by simp
  fix k
  have "filter (\<lambda>x. f x = f k) (sort_key f xs) = filter (\<lambda>x. f x = f k) xs"
    by (rule sort_key_stable)
  moreover have "(\<lambda>x. f k = f x) = (\<lambda>x. f x = f k)" by auto
  ultimately show "filter (\<lambda>x. f k = f x) (sort_key f xs) = filter (\<lambda>x. f k = f x) (rev xs)"
    by (simp add: rev_filter_le1 [OF assms])
qed

lemma map_status_of_rank:
  assumes "map status_rank xs = map status_rank ys"
  shows "map status xs = map status ys"
proof -
  have "inj STATUS_ORDER" by (simp add: inj_def STATUS_ORDER_inj)
  then have "status iv = inv STATUS_ORDER (nat (status_rank iv))" for iv
    by (simp add: status_rank_def)
  then have "map status zs = map (\<lambda>r. inv STATUS_ORDER (nat r)) (map status_rank zs)" for zs
    by simp
  with assms show ?thesis by metis
qed

text \<open>
  Claim C6, as amended. Toggling the status column from ascending gives descending,
  whose comparator is the negation of the ascending one. The descending list is
  the reverse of the ascending sort of the reversed input: its sequence of statuses
  is exactly the reverse of the ascending one's, while in both directions invoices
  of equal status keep the relative order in which they were fetched (the sort is
  stable). The descending list is the exact reverse of the ascending list when no
  two invoices share a status.
\<close>

theorem status_sort_toggled:
  "sortConfig (handleSort KStatus (st\<lparr>sortConfig := \<lparr>key = KStatus, direction = Asc\<rparr>\<rparr>)) =
     \<lparr>key = KStatus, direction = Desc\<rparr> \<and>
   compare_invoices e \<lparr>key = KStatus, direction = Desc\<rparr> a b =
     - compare_invoices e \<lparr>key = KStatus, direction = Asc\<rparr> a b \<and>
   applySorting e \<lparr>key = KStatus, direction = Desc\<rparr> xs =
     rev (applySorting e \<lparr>key = KStatus, direction = Asc\<rparr> (rev xs)) \<and>
   map status (applySorting e \<lparr>key = KStatus, direction = Desc\<rparr> xs) =
     rev (map status (applySorting e \<lparr>key = KStatus, direction = Asc\<rparr> xs)) \<and>
   filter (\<lambda>iv. status iv = s) (applySorting e \<lparr>key = KStatus, direction = d\<rparr> xs) =
     filter (\<lambda>iv. status iv = s) xs \<and>
   (distinct (map status xs) \<longrightarrow>
      applySorting e \<lparr>key = KStatus, direction = Desc\<rparr> xs =
        rev (applySorting e \<lparr>key = KStatus, direction = Asc\<rparr> xs))"
proof -
  have toggle: "sortConfig (handleSort KStatus (st\<lparr>sortConfig := \<lparr>key = KStatus, direction = Asc\<rparr>\<rparr>)) =
     \<lparr>key = KStatus, direction = Desc\<rparr>"
    by (simp add: handleSort_def)
  have neg: "compare_invoices e \<lparr>key = KStatus, direction = Desc\<rparr> a b =
     - compare_invoices e \<lparr>key = KStatus, direction = Asc\<rparr> a b"
    by (simp add: compare_invoices_def)
  have desc: "applySorting e \<lparr>key = KStatus, direction = Desc\<rparr> xs =
     rev (applySorting e \<lparr>key = KStatus, direction = Asc\<rparr> (rev xs))"
    by (simp add: sort_status_asc sort_status_desc sort_key_uminus)
  have "map status_rank (applySorting e \<lparr>key = KStatus, direction = Desc\<rparr> xs) =
          rev (sort (map status_rank (rev xs)))"
    unfolding desc sort_status_asc by (simp only: rev_map [symmetric] map_key_sort_key)
  also have "\<dots> = rev (sort (map status_rank xs))"
    by (simp only: rev_map [symmetric] sort_rev)
  also have "\<dots> = map status_rank (rev (applySorting e \<lparr>key = KStatus, direction = Asc\<rparr> xs))"
    unfolding sort_status_asc by (simp only: rev_map [symmetric] map_key_sort_key)
  finally have "map status (applySorting e \<lparr>key = KStatus, direction = Desc\<rparr> xs) =
          map status (rev (applySorting e \<lparr>key = KStatus, direction = Asc\<rparr> xs))"
    by (rule map_status_of_rank)
  then have seq: "map status (applySorting e \<lparr>key = KStatus, direction = Desc\<rparr> xs) =
     rev (map status (applySorting e \<lparr>key = KStatus, direction = Asc\<rparr> xs))"
    by (simp add: rev_map)
  have pred: "(\<lambda>iv. status iv = s) = (\<lambda>iv. status_rank iv = int (STATUS_ORDER s))"
    by (simp add: status_rank_def STATUS_ORDER_inj)
  have pred': "(\<lambda>iv. status iv = s) = (\<lambda>iv. - status_rank iv = - int (STATUS_ORDER s))"
    by (simp add: status_rank_def STATUS_ORDER_inj)
  have stable: "filter (\<lambda>iv. status iv = s) (applySorting e \<lparr>key = KStatus, direction = d\<rparr> xs) =
     filter (\<lambda>iv. status iv = s) xs"
  proof (cases d)
    case Asc
    show ?thesis unfolding Asc sort_status_asc pred by (rule sort_key_stable)
  next
    case Desc
    show ?thesis unfolding Desc sort_status_desc pred' by (rule sort_key_stable)
  qed
  have "applySorting e \<lparr>key = KStatus, direction = Desc\<rparr> xs =
        rev (applySorting e \<lparr>key = KStatus, direction = Asc\<rparr> xs)"
    if "distinct (map status xs)"
  proof -
    have "inj_on (\<lambda>t. int (STATUS_ORDER t)) (set (map status xs))"
      by (simp add: inj_on_def STATUS_ORDER_inj)
    with that have "distinct (map (\<lambda>t. int (STATUS_ORDER t)) (map status xs))"
      by (simp only: distinct_map simp_thms)
    moreover have "status_rank = (\<lambda>iv. int (STATUS_ORDER (status iv)))"
      by (simp add: fun_eq_iff status_rank_def)
    ultimately have "distinct (map status_rank xs)"
      by (simp add: comp_def)
    then show ?thesis
      unfolding desc sort_status_asc by (simp add: sort_key_rev_distinct)
  qed
  with toggle neg desc seq stable show ?thesis by blast
qed

text \<open>
  Claim C6, as stated, fails: two distinct draft invoices stay in their fetched
  order in both directions, so the descending list is not the reverse of the
  ascending one.
\<close>

theorem status_desc_is_not_reverse_of_asc:
  "applySorting env0 \<lparr>key = KStatus, direction = Desc\<rparr> [inv_draft, inv_draft2] =
     [inv_draft, inv_draft2] \<and>
   rev (applySorting env0 \<lparr>key = KStatus, direction = Asc\<rparr> [inv_draft, inv_draft2]) =
     [inv_draft2, inv_draft] \<and>
   inv_draft \<noteq> inv_draft2"
  by (simp add: applySorting_def array_sort_def compare_invoices_def inv_draft_def
      inv_draft2_def)

theorem status_sort_toggled_witness:
  "applySorting env0 \<lparr>key = KStatus, direction = Desc\<rparr> [inv_partial, inv_voided, inv_draft] =
     [inv_voided, inv_partial, inv_draft] \<and>
   rev (applySorting env0 \<lparr>key = KStatus, direction = Asc\<rparr> [inv_partial, inv_voided, inv_draft]) =
     [inv_voided, inv_partial, inv_draft]"
proof -
  have d: "distinct (map status [inv_partial, inv_voided, inv_draft])"
    by (simp add: inv_partial_def inv_voided_def inv_draft_def)
  have a: "applySorting env0 \<lparr>key = KStatus, direction = Asc\<rparr> [inv_partial, inv_voided, inv_draft] =
     [inv_draft, inv_partial, inv_voided]"
    by (simp add: applySorting_def array_sort_def compare_invoices_def inv_draft_def
      inv_partial_def inv_voided_def)
  have a': "applySorting env0 \<lparr>key = KStatus, direction = Asc\<rparr> [inv_draft, inv_voided, inv_partial] =
     [inv_draft, inv_partial, inv_voided]"
    by (simp add: applySorting_def array_sort_def compare_invoices_def inv_draft_def
      inv_partial_def inv_voided_def)
  show ?thesis
    using status_sort_toggled [where e = env0 and xs = "[inv_partial, inv_voided, inv_draft]"] d a a'
    by simp
qed

end
